theory Spec2Isabelle
  imports Main "HOL-Library.AList"
begin

section \<open>Strings\<close>

text \<open>
  JavaScript strings are modelled as \<^typ>\<open>string\<close>, one \<^typ>\<open>char\<close> per code unit, so the
  model covers the code units U+0000 to U+00FF. \<open>String.prototype.trim\<close> removes white
  space and line terminators at both ends; in that range these are TAB, LF, VT, FF, CR,
  SPACE and NO-BREAK SPACE. \<open>String.prototype.toLowerCase\<close> maps \<open>A\<close>..\<open>Z\<close> and
  U+00C0..U+00DE (without the multiplication sign U+00D7) to the code unit 32 above.
\<close>

definition isWhiteSpace :: "char \<Rightarrow> bool" where
  "isWhiteSpace c =
     (let n = (of_char c :: nat)
      in n = 9 \<or> n = 10 \<or> n = 11 \<or> n = 12 \<or> n = 13 \<or> n = 32 \<or> n = 160)"

definition trim :: "string \<Rightarrow> string" where
  "trim s = rev (dropWhile isWhiteSpace (rev (dropWhile isWhiteSpace s)))"

definition toLowerChar :: "char \<Rightarrow> char" where
  "toLowerChar c =
     (let n = (of_char c :: nat)
      in if (65 \<le> n \<and> n \<le> 90) \<or> (192 \<le> n \<and> n \<le> 222 \<and> n \<noteq> 215)
         then char_of (n + 32) else c)"

definition toLowerCase :: "string \<Rightarrow> string" where
  "toLowerCase s = map toLowerChar s"

section \<open>The conversation state manager (services/conversationManager.js)\<close>

text \<open>
  A \<open>Date\<close> is modelled by its time value, the milliseconds since the epoch, as an
  \<^typ>\<open>int\<close>; the difference of two dates is the difference of their time values. Every
  operation receives the reading of the clock as the argument \<open>now\<close>: all the
  \<open>new Date()\<close> calls of one operation see the same instant.
\<close>

record session =
  step :: int
  name :: string
  feedback :: string
  profileImageUrl :: string
  createdAt :: int
  lastActivity :: int

text \<open>The object logged by \<open>logCompletedFeedback\<close>; the duration is kept as the number of
  minutes and the two ISO time stamps as time values.\<close>

record feedbackData =
  fd_timestamp :: int
  fd_userPhone :: string
  fd_name :: string
  fd_feedback :: string
  fd_profileImageUrl :: string
  fd_sessionDuration :: int
  fd_completedAt :: int

datatype js_error = TypeError

text \<open>
  The console keeps the \<open>console.error\<close> lines and the completion record; the
  informational \<open>console.log\<close> lines of progress are left out.
\<close>

datatype log_event =
    ErrUpdateNonExistent string
  | ErrCompleteNonExistent string
  | FeedbackCollectionCompleted feedbackData
  | ErrHandlingIncomingMessage js_error
  | MessageStatusUpdate string string string string

text \<open>
  Modelled from the spec: \<open>getTemplate\<close> (utils/messageTemplates) and
  \<open>sendTextMessage\<close> (services/whatsappService) are not among the sources. A call
  \<open>getTemplate(key, arg)\<close> is kept as the selected template with its argument, and
  \<open>sendTextMessage(to, text)\<close> appends the pair to the outbox and never fails.
\<close>

datatype template =
    Greeting
  | NeedText
  | NameReceived string
  | FeedbackReceived
  | NeedImage
  | Completed string
  | SystemError

text \<open>
  The state of the process: the \<open>sessions\<close> map of the singleton manager, the console
  and the messages handed to the sender. The \<open>Map\<close> is an association list in insertion
  order: \<open>Map.set\<close> is \<^const>\<open>AList.update\<close> (an existing key keeps its place, a new one
  goes to the end), \<open>Map.get\<close> is \<^const>\<open>map_of\<close> and \<open>Map.delete\<close> is
  \<^const>\<open>AList.delete\<close>.
\<close>

record world =
  sessions :: "(string \<times> session) list"
  console :: "log_event list"
  outbox :: "(string \<times> template) list"

definition sessionTimeout :: int where
  "sessionTimeout = 12 * 60 * 60 * 1000"

definition initial_world :: world where
  "initial_world = \<lparr>sessions = [], console = [], outbox = []\<rparr>"

definition new_session :: "int \<Rightarrow> session" where
  "new_session now =
     \<lparr>step = 1, name = [], feedback = [], profileImageUrl = [],
      createdAt = now, lastActivity = now\<rparr>"

definition createSession :: "world \<Rightarrow> string \<Rightarrow> int \<Rightarrow> session \<times> world" where
  "createSession w userPhone now =
     (let session = new_session now
      in (session, w\<lparr>sessions := AList.update userPhone session (sessions w)\<rparr>))"

definition isSessionExpired :: "session \<Rightarrow> int \<Rightarrow> bool" where
  "isSessionExpired session now =
     (let timeDiff = now - lastActivity session in timeDiff > sessionTimeout)"

definition getSession :: "world \<Rightarrow> string \<Rightarrow> int \<Rightarrow> session \<times> world" where
  "getSession w userPhone now =
     (case map_of (sessions w) userPhone of
        Some session \<Rightarrow>
          if isSessionExpired session now
          then createSession (w\<lparr>sessions := AList.delete userPhone (sessions w)\<rparr>) userPhone now
          else (let session' = session\<lparr>lastActivity := now\<rparr>
                in (session', w\<lparr>sessions := AList.update userPhone session' (sessions w)\<rparr>))
      | None \<Rightarrow> createSession w userPhone now)"

text \<open>
  The \<open>updates\<close> argument of \<open>updateSession\<close>: an object that may carry any of the
  fields of a session. \<open>Object.assign(session, updates, {lastActivity: new Date()})\<close>
  copies the fields present and then sets \<open>lastActivity\<close>.
\<close>

record updates =
  u_step :: "int option"
  u_name :: "string option"
  u_feedback :: "string option"
  u_profileImageUrl :: "string option"
  u_createdAt :: "int option"
  u_lastActivity :: "int option"

definition no_updates :: updates where
  "no_updates =
     \<lparr>u_step = None, u_name = None, u_feedback = None, u_profileImageUrl = None,
      u_createdAt = None, u_lastActivity = None\<rparr>"

definition assign :: "session \<Rightarrow> updates \<Rightarrow> session" where
  "assign s u =
     \<lparr>step = (case u_step u of Some v \<Rightarrow> v | None \<Rightarrow> step s),
      name = (case u_name u of Some v \<Rightarrow> v | None \<Rightarrow> name s),
      feedback = (case u_feedback u of Some v \<Rightarrow> v | None \<Rightarrow> feedback s),
      profileImageUrl = (case u_profileImageUrl u of Some v \<Rightarrow> v | None \<Rightarrow> profileImageUrl s),
      createdAt = (case u_createdAt u of Some v \<Rightarrow> v | None \<Rightarrow> createdAt s),
      lastActivity = (case u_lastActivity u of Some v \<Rightarrow> v | None \<Rightarrow> lastActivity s)\<rparr>"

definition updateSession :: "world \<Rightarrow> string \<Rightarrow> updates \<Rightarrow> int \<Rightarrow> session \<times> world" where
  "updateSession w userPhone upd now =
     (case map_of (sessions w) userPhone of
        None \<Rightarrow>
          createSession (w\<lparr>console := console w @ [ErrUpdateNonExistent userPhone]\<rparr>) userPhone now
      | Some session \<Rightarrow>
          (let session' = (assign session upd)\<lparr>lastActivity := now\<rparr>
           in (session', w\<lparr>sessions := AList.update userPhone session' (sessions w)\<rparr>)))"

definition advanceStep :: "world \<Rightarrow> string \<Rightarrow> int \<Rightarrow> session \<times> world" where
  "advanceStep w userPhone now =
     (let (session, w1) = getSession w userPhone now;
          nextStep = min (step session + 1) 4
      in updateSession w1 userPhone (no_updates\<lparr>u_step := Some nextStep\<rparr>) now)"

text \<open>\<open>Math.round(a / b)\<close> for a positive \<open>b\<close>: the nearest integer, a half upwards. The
  quotient is taken exactly.\<close>

definition round_div :: "int \<Rightarrow> int \<Rightarrow> int" where
  "round_div a b = (2 * a + b) div (2 * b)"

definition logCompletedFeedback :: "world \<Rightarrow> string \<Rightarrow> session \<Rightarrow> int \<Rightarrow> world" where
  "logCompletedFeedback w userPhone session now =
     (let sessionDuration = now - createdAt session;
          durationMinutes = round_div sessionDuration (1000 * 60);
          data = \<lparr>fd_timestamp = now, fd_userPhone = userPhone, fd_name = name session,
                  fd_feedback = feedback session, fd_profileImageUrl = profileImageUrl session,
                  fd_sessionDuration = durationMinutes, fd_completedAt = now\<rparr>
      in w\<lparr>console := console w @ [FeedbackCollectionCompleted data]\<rparr>)"

definition completeSession :: "world \<Rightarrow> string \<Rightarrow> int \<Rightarrow> session option \<times> world" where
  "completeSession w userPhone now =
     (case map_of (sessions w) userPhone of
        None \<Rightarrow> (None, w\<lparr>console := console w @ [ErrCompleteNonExistent userPhone]\<rparr>)
      | Some session \<Rightarrow>
          (let w1 = logCompletedFeedback w userPhone session now
           in (Some session, w1\<lparr>sessions := AList.delete userPhone (sessions w1)\<rparr>)))"

text \<open>
  The loop of \<open>cleanupExpiredSessions\<close> walks the entries of the map and deletes the
  expired ones from the map it walks; an entry deleted is the one just visited, so the
  walk is over the entries as they were at the start.
\<close>

fun cleanupLoop :: "(string \<times> session) list \<Rightarrow> int \<Rightarrow> world \<Rightarrow> nat \<Rightarrow> nat \<times> world" where
  "cleanupLoop [] now w cleanedCount = (cleanedCount, w)"
| "cleanupLoop ((userPhone, session) # rest) now w cleanedCount =
     (if isSessionExpired session now
      then cleanupLoop rest now (w\<lparr>sessions := AList.delete userPhone (sessions w)\<rparr>)
             (cleanedCount + 1)
      else cleanupLoop rest now w cleanedCount)"

definition cleanupExpiredSessions :: "world \<Rightarrow> int \<Rightarrow> nat \<times> world" where
  "cleanupExpiredSessions w now = cleanupLoop (sessions w) now w 0"

definition resetSession :: "world \<Rightarrow> string \<Rightarrow> int \<Rightarrow> session \<times> world" where
  "resetSession w userPhone now =
     updateSession w userPhone
       (no_updates\<lparr>u_step := Some 1, u_name := Some [], u_feedback := Some [],
                   u_profileImageUrl := Some []\<rparr>) now"

section \<open>The webhook dispatcher (src/unnamed/part_000)\<close>

text \<open>
  An inbound message: \<open>from\<close>, \<open>type\<close>, and the optional objects \<open>text\<close> (with its
  \<open>body\<close>) and \<open>image\<close> (with its \<open>id\<close>). A field that is present holds a string.
\<close>

record textObject =
  body :: string

record imageObject =
  image_id :: string

record message =
  from_msg :: string
  type_msg :: string
  text_msg :: "textObject option"
  image_msg :: "imageObject option"

record status =
  status_id :: string
  status_recipient_id :: string
  status_status :: string
  status_timestamp :: string

text \<open>
  The webhook payload. Every property the code reads may be absent (\<open>undefined\<close>), which
  is \<^const>\<open>None\<close>: iterating over an absent array and reading a property of an absent
  object raise a \<open>TypeError\<close>.
\<close>

record changeValue =
  messages :: "message list option"
  statuses :: "status list option"

record change =
  field_change :: "string option"
  value_change :: "changeValue option"

record entry =
  changes :: "change list option"

record payload =
  object_payload :: "string option"
  entry_payload :: "entry list option"

text \<open>Modelled from the spec: \<open>sendTextMessage\<close> of services/whatsappService, which is
  not among the sources. The outbound send takes the user key and the message; the model
  records the pair and the send does not fail.\<close>

definition sendTextMessage :: "world \<Rightarrow> string \<Rightarrow> template \<Rightarrow> world" where
  "sendTextMessage w to response = w\<lparr>outbox := outbox w @ [(to, response)]\<rparr>"

definition handleNameCollection ::
  "world \<Rightarrow> message \<Rightarrow> string \<Rightarrow> session \<Rightarrow> int \<Rightarrow> world \<times> js_error option" where
  "handleNameCollection w message userPhone session now =
     (case text_msg message of
        None \<Rightarrow> (sendTextMessage w userPhone NeedText, None)
      | Some txt \<Rightarrow>
          if type_msg message \<noteq> ''text''
          then (sendTextMessage w userPhone NeedText, None)
          else (let name = trim (body txt);
                    (s1, w1) = updateSession w userPhone (no_updates\<lparr>u_name := Some name\<rparr>) now;
                    (s2, w2) = advanceStep w1 userPhone now
                in (sendTextMessage w2 userPhone (NameReceived name), None)))"

definition handleFeedbackCollection ::
  "world \<Rightarrow> message \<Rightarrow> string \<Rightarrow> session \<Rightarrow> int \<Rightarrow> world \<times> js_error option" where
  "handleFeedbackCollection w message userPhone session now =
     (case text_msg message of
        None \<Rightarrow> (sendTextMessage w userPhone NeedText, None)
      | Some txt \<Rightarrow>
          if type_msg message \<noteq> ''text''
          then (sendTextMessage w userPhone NeedText, None)
          else (let feedback = trim (body txt);
                    (s1, w1) = updateSession w userPhone
                                 (no_updates\<lparr>u_feedback := Some feedback\<rparr>) now;
                    (s2, w2) = advanceStep w1 userPhone now
                in (sendTextMessage w2 userPhone FeedbackReceived, None)))"

text \<open>Reading \<open>completedSession.name\<close> of a \<open>null\<close> raises a \<open>TypeError\<close>.\<close>

definition handleImageCollection ::
  "world \<Rightarrow> message \<Rightarrow> string \<Rightarrow> session \<Rightarrow> int \<Rightarrow> world \<times> js_error option" where
  "handleImageCollection w message userPhone session now =
     (case image_msg message of
        None \<Rightarrow> (sendTextMessage w userPhone NeedImage, None)
      | Some img \<Rightarrow>
          if type_msg message \<noteq> ''image''
          then (sendTextMessage w userPhone NeedImage, None)
          else (let imageUrl = image_id img;
                    (s1, w1) = updateSession w userPhone
                                 (no_updates\<lparr>u_profileImageUrl := Some imageUrl\<rparr>) now;
                    (completedSession, w2) = completeSession w1 userPhone now
                in case completedSession of
                     None \<Rightarrow> (w2, Some TypeError)
                   | Some cs \<Rightarrow> (sendTextMessage w2 userPhone (Completed (name cs)), None)))"

text \<open>The test of the "hi" trigger: a text message whose body, lower-cased and trimmed,
  is \<open>hi\<close>.\<close>

definition isHiTrigger :: "message \<Rightarrow> bool" where
  "isHiTrigger message =
     (case text_msg message of
        None \<Rightarrow> False
      | Some txt \<Rightarrow> type_msg message = ''text'' \<and> trim (toLowerCase (body txt)) = ''hi'')"

text \<open>The body of the \<open>try\<close> block of \<open>handleIncomingMessage\<close>.\<close>

definition handleIncomingMessageTry ::
  "world \<Rightarrow> message \<Rightarrow> int \<Rightarrow> world \<times> js_error option" where
  "handleIncomingMessageTry w message now =
     (let userPhone = from_msg message
      in if isHiTrigger message
         then (let (session, w1) = createSession w userPhone now
               in (sendTextMessage w1 userPhone Greeting, None))
         else (let (session, w1) = getSession w userPhone now
               in if step session = 1 then handleNameCollection w1 message userPhone session now
                  else if step session = 2
                    then handleFeedbackCollection w1 message userPhone session now
                  else if step session = 3
                    then handleImageCollection w1 message userPhone session now
                  else (let (s2, w2) = resetSession w1 userPhone now
                        in (sendTextMessage w2 userPhone Greeting, None))))"

text \<open>The \<open>catch\<close> block logs the error, sends the system error message and throws the
  error again.\<close>

definition handleIncomingMessage ::
  "world \<Rightarrow> message \<Rightarrow> int \<Rightarrow> world \<times> js_error option" where
  "handleIncomingMessage w message now =
     (case handleIncomingMessageTry w message now of
        (w1, None) \<Rightarrow> (w1, None)
      | (w1, Some error) \<Rightarrow>
          (sendTextMessage (w1\<lparr>console := console w1 @ [ErrHandlingIncomingMessage error]\<rparr>)
             (from_msg message) SystemError,
           Some error))"

definition handleMessageStatus :: "world \<Rightarrow> status \<Rightarrow> world" where
  "handleMessageStatus w st =
     w\<lparr>console := console w @
          [MessageStatusUpdate (status_id st) (status_recipient_id st) (status_status st)
             (status_timestamp st)]\<rparr>"

fun messagesLoop :: "world \<Rightarrow> message list \<Rightarrow> int \<Rightarrow> world \<times> js_error option" where
  "messagesLoop w [] now = (w, None)"
| "messagesLoop w (m # ms) now =
     (case handleIncomingMessage w m now of
        (w1, Some error) \<Rightarrow> (w1, Some error)
      | (w1, None) \<Rightarrow> messagesLoop w1 ms now)"

fun statusesLoop :: "world \<Rightarrow> status list \<Rightarrow> world" where
  "statusesLoop w [] = w"
| "statusesLoop w (st # sts) = statusesLoop (handleMessageStatus w st) sts"

text \<open>The two \<open>if\<close> statements of the inner loop body, in the order of the source.\<close>

definition processMessages :: "world \<Rightarrow> change \<Rightarrow> int \<Rightarrow> world \<times> js_error option" where
  "processMessages w c now =
     (if field_change c = Some ''messages''
      then (case value_change c of
              None \<Rightarrow> (w, Some TypeError)
            | Some v \<Rightarrow>
                (case messages v of
                   Some ms \<Rightarrow> messagesLoop w ms now
                 | None \<Rightarrow> (w, None)))
      else (w, None))"

definition processStatuses :: "world \<Rightarrow> change \<Rightarrow> world \<times> js_error option" where
  "processStatuses w c =
     (if field_change c = Some ''messages''
      then (case value_change c of
              None \<Rightarrow> (w, Some TypeError)
            | Some v \<Rightarrow>
                (case statuses v of
                   Some sts \<Rightarrow> (statusesLoop w sts, None)
                 | None \<Rightarrow> (w, None)))
      else (w, None))"

definition processChange :: "world \<Rightarrow> change \<Rightarrow> int \<Rightarrow> world \<times> js_error option" where
  "processChange w c now =
     (case processMessages w c now of
        (w1, Some error) \<Rightarrow> (w1, Some error)
      | (w1, None) \<Rightarrow> processStatuses w1 c)"

fun changesLoop :: "world \<Rightarrow> change list \<Rightarrow> int \<Rightarrow> world \<times> js_error option" where
  "changesLoop w [] now = (w, None)"
| "changesLoop w (c # cs) now =
     (case processChange w c now of
        (w1, Some error) \<Rightarrow> (w1, Some error)
      | (w1, None) \<Rightarrow> changesLoop w1 cs now)"

fun entriesLoop :: "world \<Rightarrow> entry list \<Rightarrow> int \<Rightarrow> world \<times> js_error option" where
  "entriesLoop w [] now = (w, None)"
| "entriesLoop w (e # es) now =
     (case changes e of
        None \<Rightarrow> (w, Some TypeError)
      | Some cs \<Rightarrow>
          (case changesLoop w cs now of
             (w1, Some error) \<Rightarrow> (w1, Some error)
           | (w1, None) \<Rightarrow> entriesLoop w1 es now))"

definition processWebhookPayload :: "world \<Rightarrow> payload \<Rightarrow> int \<Rightarrow> world \<times> js_error option" where
  "processWebhookPayload w p now =
     (if object_payload p \<noteq> Some ''whatsapp_business_account''
      then (w, None)
      else (case entry_payload p of
              None \<Rightarrow> (w, Some TypeError)
            | Some es \<Rightarrow> entriesLoop w es now))"

text \<open>
  A run of the dispatcher: the inbound messages are handled one after the other, each at
  its own reading of the clock. A handler that throws leaves the state it reached.
\<close>

fun handleAll :: "world \<Rightarrow> (message \<times> int) list \<Rightarrow> world" where
  "handleAll w [] = w"
| "handleAll w ((m, now) # rest) = handleAll (fst (handleIncomingMessage w m now)) rest"

section \<open>Vocabulary of the statements\<close>

text \<open>Repeated calls of \<open>advanceStep\<close> for one user, one call for each reading of the
  clock in the list.\<close>

fun advanceRepeatedly :: "world \<Rightarrow> string \<Rightarrow> int list \<Rightarrow> world" where
  "advanceRepeatedly w userPhone [] = w"
| "advanceRepeatedly w userPhone (now # later) =
     advanceRepeatedly (snd (advanceStep w userPhone now)) userPhone later"

text \<open>No call of a sequence comes more than twelve hours after the activity before it.\<close>

fun withinTimeout :: "int \<Rightarrow> int list \<Rightarrow> bool" where
  "withinTimeout t [] = True"
| "withinTimeout t (now # later) = (now - t \<le> 12 * 60 * 60 * 1000 \<and> withinTimeout now later)"

text \<open>An entry of the map whose last activity is more than twelve hours before \<open>now\<close>.\<close>

definition expiredEntry :: "int \<Rightarrow> string \<times> session \<Rightarrow> bool" where
  "expiredEntry now e = (now - lastActivity (snd e) > 12 * 60 * 60 * 1000)"

text \<open>Concrete sessions and states, on which the theorems are run.\<close>

definition demo_session :: session where
  "demo_session = \<lparr>step = 2, name = ''Alice'', feedback = [], profileImageUrl = [],
      createdAt = 0, lastActivity = 1000\<rparr>"

definition demo_world :: world where
  "demo_world = \<lparr>sessions = [(''111'', demo_session)], console = [], outbox = []\<rparr>"

definition demo_updates :: updates where
  "demo_updates = no_updates\<lparr>u_step := Some 3, u_name := Some ''Bob''\<rparr>"

definition ceiling_session :: session where
  "ceiling_session = \<lparr>step = 4, name = ''Carol'', feedback = ''Fine'', profileImageUrl = [],
      createdAt = 0, lastActivity = 1000\<rparr>"

definition ceiling_world :: world where
  "ceiling_world = \<lparr>sessions = [(''444'', ceiling_session)], console = [], outbox = []\<rparr>"

definition sweep_world :: world where
  "sweep_world =
     \<lparr>sessions = [(''111'', demo_session), (''222'', new_session 40000000),
                  (''333'', new_session 0)],
      console = [], outbox = []\<rparr>"

text \<open>The fields below the step of a session are filled: a name from step 2 on, feedback
  from step 3 on.\<close>

definition sessionHasFields :: "session \<Rightarrow> bool" where
  "sessionHasFields s = ((step s > 1 \<longrightarrow> name s \<noteq> []) \<and> (step s > 2 \<longrightarrow> feedback s \<noteq> []))"

text \<open>A property of every session of the store.\<close>

definition everySession :: "(session \<Rightarrow> bool) \<Rightarrow> world \<Rightarrow> bool" where
  "everySession P w = list_all (\<lambda>e. P (snd e)) (sessions w)"

text \<open>A message that, when it is a text message, has a body that is not empty once
  trimmed.\<close>

definition nonBlankText :: "message \<Rightarrow> bool" where
  "nonBlankText m =
     (case text_msg m of
        None \<Rightarrow> True
      | Some txt \<Rightarrow> type_msg m = ''text'' \<longrightarrow> trim (body txt) \<noteq> [])"

text \<open>Concrete messages, with the states they are sent to.\<close>

definition hi_message :: message where
  "hi_message = \<lparr>from_msg = ''444'', type_msg = ''text'', text_msg = Some \<lparr>body = '' Hi ''\<rparr>,
      image_msg = None\<rparr>"

definition image_message :: message where
  "image_message = \<lparr>from_msg = ''111'', type_msg = ''image'', text_msg = None,
      image_msg = Some \<lparr>image_id = ''img-42''\<rparr>\<rparr>"

definition text_message :: message where
  "text_message = \<lparr>from_msg = ''555'', type_msg = ''text'', text_msg = Some \<lparr>body = ''hello''\<rparr>,
      image_msg = None\<rparr>"

definition image_session :: session where
  "image_session = \<lparr>step = 3, name = ''Dan'', feedback = ''Good'', profileImageUrl = [],
      createdAt = 0, lastActivity = 1000\<rparr>"

definition image_world :: world where
  "image_world = \<lparr>sessions = [(''555'', image_session)], console = [], outbox = []\<rparr>"

definition hi_at_step3 :: message where
  "hi_at_step3 = \<lparr>from_msg = ''555'', type_msg = ''text'', text_msg = Some \<lparr>body = ''hi''\<rparr>,
      image_msg = None\<rparr>"

definition stray_message :: message where
  "stray_message = \<lparr>from_msg = ''444'', type_msg = ''text'', text_msg = Some \<lparr>body = ''hello''\<rparr>,
      image_msg = None\<rparr>"

text \<open>An entry that has its \<open>changes\<close> array, no change of which has the field
  \<open>messages\<close>.\<close>

definition ignoredEntry :: "entry \<Rightarrow> bool" where
  "ignoredEntry e =
     (case changes e of
        None \<Rightarrow> False
      | Some cs \<Rightarrow> list_all (\<lambda>c. field_change c \<noteq> Some ''messages'') cs)"

text \<open>Concrete payloads.\<close>

definition entry_without_changes :: payload where
  "entry_without_changes =
     \<lparr>object_payload = Some ''whatsapp_business_account'',
      entry_payload = Some [\<lparr>changes = None\<rparr>]\<rparr>"

definition other_object :: payload where
  "other_object = \<lparr>object_payload = Some ''page'', entry_payload = None\<rparr>"

definition other_field_entries :: "entry list" where
  "other_field_entries =
     [\<lparr>changes = Some [\<lparr>field_change = Some ''account_update'', value_change = None\<rparr>,
                        \<lparr>field_change = None, value_change = None\<rparr>]\<rparr>]"

definition other_field :: payload where
  "other_field =
     \<lparr>object_payload = Some ''whatsapp_business_account'',
      entry_payload = Some other_field_entries\<rparr>"

text \<open>A text message of two spaces, and the first three messages of a conversation.\<close>

definition blank_message :: message where
  "blank_message = \<lparr>from_msg = ''111'', type_msg = ''text'', text_msg = Some \<lparr>body = ''  ''\<rparr>,
      image_msg = None\<rparr>"

definition alice_message :: message where
  "alice_message = \<lparr>from_msg = ''444'', type_msg = ''text'', text_msg = Some \<lparr>body = ''Alice''\<rparr>,
      image_msg = None\<rparr>"

definition great_message :: message where
  "great_message = \<lparr>from_msg = ''444'', type_msg = ''text'',
      text_msg = Some \<lparr>body = ''Great service''\<rparr>, image_msg = None\<rparr>"

definition scenario :: "(message \<times> int) list" where
  "scenario = [(hi_message, 1000), (alice_message, 2000), (great_message, 3000)]"

section \<open>The session store\<close>

lemma map_of_update_same: "map_of (AList.update k v al) k = Some v"
  by (simp add: update_conv')

lemma map_of_delete_same: "map_of (AList.delete k al) k = None"
  by (simp add: delete_conv')

lemma createSession_eq:
  "createSession w u now =
     (new_session now, w\<lparr>sessions := AList.update u (new_session now) (sessions w)\<rparr>)"
  by (simp add: createSession_def Let_def)

lemma getSession_None:
  "map_of (sessions w) u = None \<Longrightarrow> getSession w u now = createSession w u now"
  by (simp add: getSession_def)

lemma getSession_expired:
  "map_of (sessions w) u = Some s \<Longrightarrow> isSessionExpired s now \<Longrightarrow>
   getSession w u now = createSession (w\<lparr>sessions := AList.delete u (sessions w)\<rparr>) u now"
  by (simp add: getSession_def)

lemma getSession_live:
  "map_of (sessions w) u = Some s \<Longrightarrow> \<not> isSessionExpired s now \<Longrightarrow>
   getSession w u now =
     (s\<lparr>lastActivity := now\<rparr>, w\<lparr>sessions := AList.update u (s\<lparr>lastActivity := now\<rparr>) (sessions w)\<rparr>)"
  by (simp add: getSession_def Let_def)

lemma not_expired_now: "lastActivity s = now \<Longrightarrow> \<not> isSessionExpired s now"
  by (simp add: isSessionExpired_def sessionTimeout_def)

lemma getSession_stored: "map_of (sessions (snd (getSession w u now))) u = Some (fst (getSession w u now))"
  by (simp add: getSession_def createSession_eq map_of_update_same Let_def split: option.split)

lemma getSession_fresh: "\<not> isSessionExpired (fst (getSession w u now)) now"
  by (simp add: getSession_def createSession_eq new_session_def not_expired_now Let_def split: option.split)

text \<open>
  Claim C2. For every user key and every state of the store, \<open>getSession\<close> never returns
  an expired session, and the session it returns is the one stored for the key. When the
  stored session's last activity is more than twelve hours before \<open>now\<close>, the session
  returned has step 1 and empty name, feedback and image; otherwise it is the stored
  session with \<open>lastActivity\<close> set to \<open>now\<close>. A key with no session gets a new session.
\<close>

theorem getSession_never_expired:
  "(let (r, w') = getSession w u now
    in \<not> isSessionExpired r now \<and> map_of (sessions w') u = Some r \<and>
       (case map_of (sessions w) u of
          None \<Rightarrow> r = new_session now
        | Some s \<Rightarrow>
            if now - lastActivity s > 12 * 60 * 60 * 1000
            then step r = 1 \<and> name r = [] \<and> feedback r = [] \<and> profileImageUrl r = []
            else r = s\<lparr>lastActivity := now\<rparr>))"
proof -
  obtain r w' where g: "getSession w u now = (r, w')" by (cases "getSession w u now")
  have a: "\<not> isSessionExpired r now" using getSession_fresh [of w u now] g by simp
  have b: "map_of (sessions w') u = Some r" using getSession_stored [of w u now] g by simp
  have c: "(case map_of (sessions w) u of
          None \<Rightarrow> r = new_session now
        | Some s \<Rightarrow>
            if now - lastActivity s > 12 * 60 * 60 * 1000
            then step r = 1 \<and> name r = [] \<and> feedback r = [] \<and> profileImageUrl r = []
            else r = s\<lparr>lastActivity := now\<rparr>)"
  proof (cases "map_of (sessions w) u")
    case None
    then show ?thesis using g by (simp add: getSession_None createSession_eq)
  next
    case (Some s)
    show ?thesis
    proof (cases "isSessionExpired s now")
      case True
      then have "r = new_session now"
        using g Some by (simp add: getSession_expired createSession_eq)
      then show ?thesis using Some True
        by (simp add: new_session_def isSessionExpired_def sessionTimeout_def)
    next
      case False
      then have "r = s\<lparr>lastActivity := now\<rparr>"
        using g Some by (simp add: getSession_live)
      then show ?thesis using Some False
        by (simp add: isSessionExpired_def sessionTimeout_def)
    qed
  qed
  show ?thesis using a b c g by simp
qed

theorem getSession_never_expired_witness:
  "fst (getSession demo_world ''111'' 43201001) = new_session 43201001 \<and>
   fst (getSession demo_world ''111'' 43201000) = demo_session\<lparr>lastActivity := 43201000\<rparr>"
  using getSession_never_expired [of demo_world "''111''" 43201001]
    getSession_never_expired [of demo_world "''111''" 43201000]
  by (simp add: demo_world_def demo_session_def getSession_def createSession_eq new_session_def
      isSessionExpired_def sessionTimeout_def Let_def)

lemma updateSession_None:
  "map_of (sessions w) u = None \<Longrightarrow>
   updateSession w u upd now =
     createSession (w\<lparr>console := console w @ [ErrUpdateNonExistent u]\<rparr>) u now"
  by (simp add: updateSession_def)

lemma updateSession_Some:
  "map_of (sessions w) u = Some s \<Longrightarrow>
   updateSession w u upd now =
     ((assign s upd)\<lparr>lastActivity := now\<rparr>,
      w\<lparr>sessions := AList.update u ((assign s upd)\<lparr>lastActivity := now\<rparr>) (sessions w)\<rparr>)"
  by (simp add: updateSession_def Let_def)

text \<open>
  Claim C4. For a user key with no session and any \<open>updates\<close> argument, \<open>updateSession\<close>
  writes its error line to the console and returns a newly created session, with step 1
  and empty fields, which is the one stored; nothing of \<open>updates\<close> reaches it. The
  operation returns a session in every case: it has no failing branch.
\<close>

theorem updateSession_missing:
  "map_of (sessions w) u = None \<Longrightarrow>
   (let (r, w') = updateSession w u upd now
    in r = new_session now \<and> step r = 1 \<and> name r = [] \<and> feedback r = [] \<and>
       profileImageUrl r = [] \<and> createdAt r = now \<and> lastActivity r = now \<and>
       map_of (sessions w') u = Some r \<and>
       console w' = console w @ [ErrUpdateNonExistent u] \<and> outbox w' = outbox w)"
  by (simp add: updateSession_None createSession_eq new_session_def map_of_update_same)

theorem updateSession_missing_witness:
  "map_of (sessions demo_world) ''222'' = None \<and>
   fst (updateSession demo_world ''222'' demo_updates 5000) = new_session 5000 \<and>
   console (snd (updateSession demo_world ''222'' demo_updates 5000)) =
     [ErrUpdateNonExistent ''222'']"
proof -
  have h: "map_of (sessions demo_world) ''222'' = None"
    by (simp add: demo_world_def)
  show ?thesis
    using h updateSession_missing [OF h, of demo_updates 5000]
    by (simp add: demo_world_def split: prod.splits)
qed

lemma round_div_nearest:
  "0 < b \<Longrightarrow> 2 * b * round_div a b - b \<le> 2 * a \<and> 2 * a < 2 * b * round_div a b + b"
proof -
  assume b: "0 < b"
  have m: "(2 * a + b) = 2 * b * ((2 * a + b) div (2 * b)) + (2 * a + b) mod (2 * b)"
    by simp
  have lo: "0 \<le> (2 * a + b) mod (2 * b)" using b by simp
  have hi: "(2 * a + b) mod (2 * b) < 2 * b" using b by simp
  show ?thesis unfolding round_div_def using m lo hi by linarith
qed

lemma completeSession_None:
  "map_of (sessions w) u = None \<Longrightarrow>
   completeSession w u now = (None, w\<lparr>console := console w @ [ErrCompleteNonExistent u]\<rparr>)"
  by (simp add: completeSession_def)

lemma completeSession_Some:
  "map_of (sessions w) u = Some s \<Longrightarrow>
   completeSession w u now =
     (Some s,
      w\<lparr>console := console w @
           [FeedbackCollectionCompleted
              \<lparr>fd_timestamp = now, fd_userPhone = u, fd_name = name s,
               fd_feedback = feedback s, fd_profileImageUrl = profileImageUrl s,
               fd_sessionDuration = round_div (now - createdAt s) (1000 * 60),
               fd_completedAt = now\<rparr>],
        sessions := AList.delete u (sessions w)\<rparr>)"
  by (simp add: completeSession_def logCompletedFeedback_def Let_def)

text \<open>
  Claim C5. \<open>completeSession\<close> returns \<open>null\<close> for a key with no session, after an error
  line, and leaves the map as it was. For a key with a session it logs the completion
  record with the session's name, feedback and image and the duration \<open>d\<close>, the number of
  minutes nearest to \<open>now - createdAt\<close> (a half rounds upwards), deletes the entry and
  returns the session as it was stored; a later \<open>getSession\<close> for the key then creates a
  new session with step 1 and empty fields.
\<close>

theorem completeSession_behaviour:
  "(let (r, w') = completeSession w u now
    in case map_of (sessions w) u of
         None \<Rightarrow>
           r = None \<and> sessions w' = sessions w \<and> outbox w' = outbox w \<and>
           console w' = console w @ [ErrCompleteNonExistent u]
       | Some s \<Rightarrow>
           r = Some s \<and>
           (\<exists>d. console w' = console w @
                  [FeedbackCollectionCompleted
                     \<lparr>fd_timestamp = now, fd_userPhone = u, fd_name = name s,
                      fd_feedback = feedback s, fd_profileImageUrl = profileImageUrl s,
                      fd_sessionDuration = d, fd_completedAt = now\<rparr>] \<and>
                60000 * d - 30000 \<le> now - createdAt s \<and>
                now - createdAt s < 60000 * d + 30000) \<and>
           sessions w' = AList.delete u (sessions w) \<and>
           map_of (sessions w') u = None \<and>
           outbox w' = outbox w \<and>
           (\<forall>later. fst (getSession w' u later) = new_session later \<and>
                    step (fst (getSession w' u later)) = 1 \<and>
                    name (fst (getSession w' u later)) = [] \<and>
                    feedback (fst (getSession w' u later)) = [] \<and>
                    profileImageUrl (fst (getSession w' u later)) = []))"
proof (cases "map_of (sessions w) u")
  case None
  then show ?thesis by (simp add: completeSession_None)
next
  case (Some s)
  let ?d = "round_div (now - createdAt s) (1000 * 60)"
  let ?w = "snd (completeSession w u now)"
  have r: "2 * (1000 * 60) * ?d - (1000 * 60) \<le> 2 * (now - createdAt s) \<and>
           2 * (now - createdAt s) < 2 * (1000 * 60) * ?d + (1000 * 60)"
    by (rule round_div_nearest) simp
  have d: "60000 * ?d - 30000 \<le> now - createdAt s \<and> now - createdAt s < 60000 * ?d + 30000"
    using r by simp
  have gone: "map_of (sessions ?w) u = None"
    using Some by (simp add: completeSession_Some map_of_delete_same)
  have fresh: "fst (getSession ?w u later) = new_session later" for later
    using gone by (simp add: getSession_None createSession_eq)
  show ?thesis
    using Some d gone fresh
    by (simp add: completeSession_Some new_session_def)
qed

lemma assign_step:
  "assign s (no_updates\<lparr>u_step := Some n\<rparr>) = s\<lparr>step := n\<rparr>"
  by (simp add: assign_def no_updates_def)

lemma advanceStep_eq:
  "advanceStep w u now =
     (let g = fst (getSession w u now); w1 = snd (getSession w u now);
          r = g\<lparr>step := min (step g + 1) 4, lastActivity := now\<rparr>
      in (r, w1\<lparr>sessions := AList.update u r (sessions w1)\<rparr>))"
proof -
  obtain g w1 where gw: "getSession w u now = (g, w1)" by (cases "getSession w u now")
  have st: "map_of (sessions w1) u = Some g"
    using getSession_stored [of w u now] gw by simp
  show ?thesis
    by (simp add: advanceStep_def gw updateSession_Some [OF st] assign_step Let_def)
qed

lemma advanceStep_stored:
  "map_of (sessions (snd (advanceStep w u now))) u = Some (fst (advanceStep w u now))"
  by (simp add: advanceStep_eq Let_def map_of_update_same)

lemma advanceStep_step:
  "step (fst (advanceStep w u now)) = min (step (fst (getSession w u now)) + 1) 4"
  by (simp add: advanceStep_eq Let_def)

lemma advanceStep_lastActivity:
  "lastActivity (fst (advanceStep w u now)) = now"
  by (simp add: advanceStep_eq Let_def)

lemma advanceStep_ceiling:
  assumes "map_of (sessions w) u = Some s" and "step s = 4" and "\<not> isSessionExpired s now"
  shows "step (fst (advanceStep w u now)) = 4"
  using assms by (simp add: advanceStep_step getSession_live)

lemma advanceRepeatedly_le:
  "map_of (sessions w) u = Some s \<Longrightarrow> step s \<le> 4 \<Longrightarrow>
   \<exists>r. map_of (sessions (advanceRepeatedly w u ts)) u = Some r \<and> step r \<le> 4"
proof (induction ts arbitrary: w s)
  case Nil
  then show ?case by simp
next
  case (Cons now later)
  have "step (fst (advanceStep w u now)) \<le> 4" by (simp add: advanceStep_step)
  with Cons.IH [OF advanceStep_stored] show ?case by simp
qed

lemma advanceRepeatedly_ceiling:
  "map_of (sessions w) u = Some s \<Longrightarrow> step s = 4 \<Longrightarrow> withinTimeout (lastActivity s) ts \<Longrightarrow>
   \<exists>r. map_of (sessions (advanceRepeatedly w u ts)) u = Some r \<and> step r = 4"
proof (induction ts arbitrary: w s)
  case Nil
  then show ?case by simp
next
  case (Cons now later)
  from Cons.prems have live: "\<not> isSessionExpired s now"
    by (simp add: isSessionExpired_def sessionTimeout_def)
  have a: "step (fst (advanceStep w u now)) = 4"
    using Cons.prems(1,2) live by (rule advanceStep_ceiling)
  have b: "withinTimeout (lastActivity (fst (advanceStep w u now))) later"
    using Cons.prems(3) by (simp add: advanceStep_lastActivity)
  from Cons.IH [OF advanceStep_stored a b] show ?case by simp
qed

text \<open>
  Claim C6. \<open>advanceStep\<close> stores and returns the session that \<open>getSession\<close> yields with
  its step set to \<open>min (step + 1) 4\<close>, the other collected fields untouched; for a stored
  session that has not expired this is the minimum of its own step plus one and 4. After
  any number of calls the step is at most 4, and from step 4 it stays 4 as long as no
  call finds the session expired.
\<close>

theorem advanceStep_clamped:
  "(let (g, w1) = getSession w u now; (r, w') = advanceStep w u now
    in step r = min (step g + 1) 4 \<and> step r \<le> 4 \<and> map_of (sessions w') u = Some r \<and>
       name r = name g \<and> feedback r = feedback g \<and> profileImageUrl r = profileImageUrl g \<and>
       createdAt r = createdAt g) \<and>
   (map_of (sessions w) u = Some s \<and> \<not> now - lastActivity s > 12 * 60 * 60 * 1000 \<longrightarrow>
      step (fst (advanceStep w u now)) = min (step s + 1) 4) \<and>
   (map_of (sessions w) u = Some s \<and> step s \<le> 4 \<longrightarrow>
      (\<exists>r. map_of (sessions (advanceRepeatedly w u ts)) u = Some r \<and> step r \<le> 4)) \<and>
   (map_of (sessions w) u = Some s \<and> step s = 4 \<and> withinTimeout (lastActivity s) ts \<longrightarrow>
      (\<exists>r. map_of (sessions (advanceRepeatedly w u ts)) u = Some r \<and> step r = 4))"
proof -
  have one: "(let (g, w1) = getSession w u now; (r, w') = advanceStep w u now
    in step r = min (step g + 1) 4 \<and> step r \<le> 4 \<and> map_of (sessions w') u = Some r \<and>
       name r = name g \<and> feedback r = feedback g \<and> profileImageUrl r = profileImageUrl g \<and>
       createdAt r = createdAt g)"
    by (simp add: advanceStep_eq Let_def map_of_update_same split: prod.split)
  have two: "map_of (sessions w) u = Some s \<and> \<not> now - lastActivity s > 12 * 60 * 60 * 1000 \<longrightarrow>
      step (fst (advanceStep w u now)) = min (step s + 1) 4"
    by (simp add: advanceStep_step getSession_live isSessionExpired_def sessionTimeout_def)
  show ?thesis
    using one two advanceRepeatedly_le [of w u s ts] advanceRepeatedly_ceiling [of w u s ts]
    by blast
qed

lemma expiredEntry_iff: "expiredEntry now (k, s) = isSessionExpired s now"
  by (simp add: expiredEntry_def isSessionExpired_def sessionTimeout_def)

lemma delete_middle:
  assumes "k \<notin> fst ` set xs" and "k \<notin> fst ` set ys"
  shows "AList.delete k (xs @ (k, v) # ys) = xs @ ys"
proof -
  have "AList.delete k xs = xs" "AList.delete k ys = ys"
    using assms by simp_all
  then show ?thesis by (simp add: AList.delete_eq)
qed

lemma cleanupLoop_filter:
  "distinct (map fst (pre @ es)) \<Longrightarrow>
   sessions w = filter (\<lambda>e. \<not> expiredEntry now e) pre @ es \<Longrightarrow>
   cleanupLoop es now w c =
     (c + length (filter (expiredEntry now) es),
      w\<lparr>sessions := filter (\<lambda>e. \<not> expiredEntry now e) (pre @ es)\<rparr>)"
proof (induction es arbitrary: pre w c)
  case Nil
  then show ?case by simp
next
  case (Cons e es)
  obtain k s where e: "e = (k, s)" by (cases e)
  have d: "distinct (map fst ((pre @ [e]) @ es))" using Cons.prems(1) by simp
  show ?case
  proof (cases "isSessionExpired s now")
    case True
    have k1: "k \<notin> fst ` set (filter (\<lambda>e. \<not> expiredEntry now e) pre)"
      using Cons.prems(1) e by auto
    have k2: "k \<notin> fst ` set es" using Cons.prems(1) e by auto
    have del: "AList.delete k (sessions w) = filter (\<lambda>e. \<not> expiredEntry now e) (pre @ [e]) @ es"
      using Cons.prems(2) e True delete_middle [OF k1 k2] by (simp add: expiredEntry_iff)
    have "cleanupLoop es now (w\<lparr>sessions := AList.delete k (sessions w)\<rparr>) (c + 1) =
          (c + 1 + length (filter (expiredEntry now) es),
           w\<lparr>sessions := filter (\<lambda>e. \<not> expiredEntry now e) ((pre @ [e]) @ es)\<rparr>)"
      using Cons.IH [OF d, of "w\<lparr>sessions := AList.delete k (sessions w)\<rparr>" "c + 1"] del
      by simp
    then show ?thesis using e True by (simp add: expiredEntry_iff)
  next
    case False
    have keep: "sessions w = filter (\<lambda>e. \<not> expiredEntry now e) (pre @ [e]) @ es"
      using Cons.prems(2) e False by (simp add: expiredEntry_iff)
    have "cleanupLoop es now w c =
          (c + length (filter (expiredEntry now) es),
           w\<lparr>sessions := filter (\<lambda>e. \<not> expiredEntry now e) ((pre @ [e]) @ es)\<rparr>)"
      using Cons.IH [OF d keep] by simp
    then show ?thesis using e False by (simp add: expiredEntry_iff)
  qed
qed

text \<open>
  Claim C7. On a map (an association list with distinct keys) \<open>cleanupExpiredSessions\<close>
  returns the number of the expired entries and leaves exactly the entries that are not
  expired, unchanged and in their order.
\<close>

theorem cleanupExpiredSessions_exact:
  "distinct (map fst (sessions w)) \<Longrightarrow>
   cleanupExpiredSessions w now =
     (length (filter (expiredEntry now) (sessions w)),
      w\<lparr>sessions := filter (\<lambda>e. \<not> expiredEntry now e) (sessions w)\<rparr>)"
  using cleanupLoop_filter [of "[]" "sessions w" w now 0]
  by (simp add: cleanupExpiredSessions_def)

theorem cleanupExpiredSessions_exact_witness:
  "distinct (map fst (sessions sweep_world)) \<and>
   cleanupExpiredSessions sweep_world 50000000 =
     (2, sweep_world\<lparr>sessions := [(''222'', new_session 40000000)]\<rparr>)"
proof -
  have h: "distinct (map fst (sessions sweep_world))"
    by (simp add: sweep_world_def)
  show ?thesis
    using h cleanupExpiredSessions_exact [OF h, of 50000000]
    by (simp add: sweep_world_def demo_session_def new_session_def expiredEntry_def)
qed

theorem completeSession_behaviour_witness:
  "fst (completeSession demo_world ''111'' 90000) = Some demo_session \<and>
   console (snd (completeSession demo_world ''111'' 90000)) =
     [FeedbackCollectionCompleted
        \<lparr>fd_timestamp = 90000, fd_userPhone = ''111'', fd_name = ''Alice'', fd_feedback = [],
         fd_profileImageUrl = [], fd_sessionDuration = 2, fd_completedAt = 90000\<rparr>] \<and>
   sessions (snd (completeSession demo_world ''111'' 90000)) = [] \<and>
   fst (completeSession demo_world ''222'' 90000) = None"
  using completeSession_behaviour [of demo_world "''111''" 90000]
    completeSession_behaviour [of demo_world "''222''" 90000]
  by (simp add: demo_world_def demo_session_def completeSession_def logCompletedFeedback_def
      round_div_def Let_def)

theorem advanceStep_clamped_witness:
  "map_of (sessions ceiling_world) ''444'' = Some ceiling_session \<and>
   step ceiling_session = 4 \<and>
   \<not> 2000 - lastActivity ceiling_session > 12 * 60 * 60 * 1000 \<and>
   withinTimeout (lastActivity ceiling_session) [2000, 3000] \<and>
   step (fst (advanceStep ceiling_world ''444'' 2000)) = 4 \<and>
   (\<exists>r. map_of (sessions (advanceRepeatedly ceiling_world ''444'' [2000, 3000])) ''444'' = Some r \<and>
        step r = 4)"
proof -
  have h1: "map_of (sessions ceiling_world) ''444'' = Some ceiling_session"
    by (simp add: ceiling_world_def)
  have h2: "step ceiling_session = 4"
    by (simp add: ceiling_session_def)
  have h3: "\<not> 2000 - lastActivity ceiling_session > 12 * 60 * 60 * 1000"
    by (simp add: ceiling_session_def)
  have h4: "withinTimeout (lastActivity ceiling_session) [2000, 3000]"
    by (simp add: ceiling_session_def)
  show ?thesis
    using h1 h2 h3 h4
      advanceStep_clamped [of ceiling_world "''444''" 2000 ceiling_session "[2000, 3000]"]
    by simp
qed

section \<open>The step handlers\<close>

lemma sendTextMessage_sessions [simp]: "sessions (sendTextMessage w to r) = sessions w"
  by (simp add: sendTextMessage_def)

lemma assign_name: "assign s (no_updates\<lparr>u_name := Some n\<rparr>) = s\<lparr>name := n\<rparr>"
  by (simp add: assign_def no_updates_def)

lemma assign_feedback: "assign s (no_updates\<lparr>u_feedback := Some n\<rparr>) = s\<lparr>feedback := n\<rparr>"
  by (simp add: assign_def no_updates_def)

lemma assign_image:
  "assign s (no_updates\<lparr>u_profileImageUrl := Some n\<rparr>) = s\<lparr>profileImageUrl := n\<rparr>"
  by (simp add: assign_def no_updates_def)

lemma assign_reset:
  "assign s (no_updates\<lparr>u_step := Some 1, u_name := Some [], u_feedback := Some [],
                        u_profileImageUrl := Some []\<rparr>) =
   s\<lparr>step := 1, name := [], feedback := [], profileImageUrl := []\<rparr>"
  by (simp add: assign_def no_updates_def)

lemma advanceStep_live:
  assumes "map_of (sessions w) u = Some s" and "lastActivity s = now"
  shows "advanceStep w u now =
           (s\<lparr>step := min (step s + 1) 4, lastActivity := now\<rparr>,
            w\<lparr>sessions := AList.update u (s\<lparr>step := min (step s + 1) 4, lastActivity := now\<rparr>)
                            (sessions w)\<rparr>)"
proof -
  have live: "\<not> isSessionExpired s now" using assms(2) by (rule not_expired_now)
  show ?thesis
    by (simp add: advanceStep_eq getSession_live [OF assms(1) live] Let_def)
qed

lemma handleNameCollection_text:
  assumes "map_of (sessions w) u = Some g" and "type_msg m = ''text''" and "text_msg m = Some txt"
  shows "handleNameCollection w m u any now =
           (w\<lparr>sessions := AList.update u
                 (g\<lparr>name := trim (body txt), step := min (step g + 1) 4, lastActivity := now\<rparr>)
                 (sessions w),
               outbox := outbox w @ [(u, NameReceived (trim (body txt)))]\<rparr>, None)"
proof -
  let ?s1 = "g\<lparr>name := trim (body txt), lastActivity := now\<rparr>"
  let ?w1 = "w\<lparr>sessions := AList.update u ?s1 (sessions w)\<rparr>"
  have u1: "updateSession w u (no_updates\<lparr>u_name := Some (trim (body txt))\<rparr>) now = (?s1, ?w1)"
    by (simp add: updateSession_Some [OF assms(1)] assign_name)
  have st: "map_of (sessions ?w1) u = Some ?s1" by (simp add: map_of_update_same)
  have a: "advanceStep ?w1 u now =
             (?s1\<lparr>step := min (step ?s1 + 1) 4, lastActivity := now\<rparr>,
              ?w1\<lparr>sessions := AList.update u
                     (?s1\<lparr>step := min (step ?s1 + 1) 4, lastActivity := now\<rparr>) (sessions ?w1)\<rparr>)"
    by (rule advanceStep_live [OF st]) simp
  show ?thesis
    using assms(2,3) by (simp add: handleNameCollection_def u1 a sendTextMessage_def Let_def)
qed

lemma handleFeedbackCollection_text:
  assumes "map_of (sessions w) u = Some g" and "type_msg m = ''text''" and "text_msg m = Some txt"
  shows "handleFeedbackCollection w m u any now =
           (w\<lparr>sessions := AList.update u
                 (g\<lparr>feedback := trim (body txt), step := min (step g + 1) 4, lastActivity := now\<rparr>)
                 (sessions w),
               outbox := outbox w @ [(u, FeedbackReceived)]\<rparr>, None)"
proof -
  let ?s1 = "g\<lparr>feedback := trim (body txt), lastActivity := now\<rparr>"
  let ?w1 = "w\<lparr>sessions := AList.update u ?s1 (sessions w)\<rparr>"
  have u1: "updateSession w u (no_updates\<lparr>u_feedback := Some (trim (body txt))\<rparr>) now = (?s1, ?w1)"
    by (simp add: updateSession_Some [OF assms(1)] assign_feedback)
  have st: "map_of (sessions ?w1) u = Some ?s1" by (simp add: map_of_update_same)
  have a: "advanceStep ?w1 u now =
             (?s1\<lparr>step := min (step ?s1 + 1) 4, lastActivity := now\<rparr>,
              ?w1\<lparr>sessions := AList.update u
                     (?s1\<lparr>step := min (step ?s1 + 1) 4, lastActivity := now\<rparr>) (sessions ?w1)\<rparr>)"
    by (rule advanceStep_live [OF st]) simp
  show ?thesis
    using assms(2,3) by (simp add: handleFeedbackCollection_def u1 a sendTextMessage_def Let_def)
qed

lemma handleImageCollection_image:
  assumes "map_of (sessions w) u = Some g" and "type_msg m = ''image''" and "image_msg m = Some img"
  shows "handleImageCollection w m u any now =
           (w\<lparr>sessions := AList.delete u (sessions w),
               console := console w @
                 [FeedbackCollectionCompleted
                    \<lparr>fd_timestamp = now, fd_userPhone = u, fd_name = name g,
                     fd_feedback = feedback g, fd_profileImageUrl = image_id img,
                     fd_sessionDuration = round_div (now - createdAt g) (1000 * 60),
                     fd_completedAt = now\<rparr>],
               outbox := outbox w @ [(u, Completed (name g))]\<rparr>, None)"
proof -
  let ?s1 = "g\<lparr>profileImageUrl := image_id img, lastActivity := now\<rparr>"
  let ?w1 = "w\<lparr>sessions := AList.update u ?s1 (sessions w)\<rparr>"
  have u1: "updateSession w u (no_updates\<lparr>u_profileImageUrl := Some (image_id img)\<rparr>) now = (?s1, ?w1)"
    by (simp add: updateSession_Some [OF assms(1)] assign_image)
  have st: "map_of (sessions ?w1) u = Some ?s1" by (simp add: map_of_update_same)
  show ?thesis
    using assms(2,3)
    by (simp add: handleImageCollection_def u1 completeSession_Some [OF st] sendTextMessage_def
        delete_update_same Let_def)
qed

lemma handleNameCollection_mismatch:
  "type_msg m \<noteq> ''text'' \<or> text_msg m = None \<Longrightarrow>
   handleNameCollection w m u any now = (w\<lparr>outbox := outbox w @ [(u, NeedText)]\<rparr>, None)"
  by (auto simp add: handleNameCollection_def sendTextMessage_def split: option.split)

lemma handleFeedbackCollection_mismatch:
  "type_msg m \<noteq> ''text'' \<or> text_msg m = None \<Longrightarrow>
   handleFeedbackCollection w m u any now = (w\<lparr>outbox := outbox w @ [(u, NeedText)]\<rparr>, None)"
  by (auto simp add: handleFeedbackCollection_def sendTextMessage_def split: option.split)

lemma handleImageCollection_mismatch:
  "type_msg m \<noteq> ''image'' \<or> image_msg m = None \<Longrightarrow>
   handleImageCollection w m u any now = (w\<lparr>outbox := outbox w @ [(u, NeedImage)]\<rparr>, None)"
  by (auto simp add: handleImageCollection_def sendTextMessage_def split: option.split)

lemma handleNameCollection_no_error:
  "map_of (sessions w) u = Some g \<Longrightarrow> snd (handleNameCollection w m u any now) = None"
  by (cases "type_msg m \<noteq> ''text'' \<or> text_msg m = None")
    (auto simp add: handleNameCollection_mismatch handleNameCollection_text)

lemma handleFeedbackCollection_no_error:
  "map_of (sessions w) u = Some g \<Longrightarrow> snd (handleFeedbackCollection w m u any now) = None"
  by (cases "type_msg m \<noteq> ''text'' \<or> text_msg m = None")
    (auto simp add: handleFeedbackCollection_mismatch handleFeedbackCollection_text)

lemma handleImageCollection_no_error:
  "map_of (sessions w) u = Some g \<Longrightarrow> snd (handleImageCollection w m u any now) = None"
  by (cases "type_msg m \<noteq> ''image'' \<or> image_msg m = None")
    (auto simp add: handleImageCollection_mismatch handleImageCollection_image)

lemma resetSession_Some:
  "map_of (sessions w) u = Some s \<Longrightarrow>
   resetSession w u now =
     (s\<lparr>step := 1, name := [], feedback := [], profileImageUrl := [], lastActivity := now\<rparr>,
      w\<lparr>sessions := AList.update u
            (s\<lparr>step := 1, name := [], feedback := [], profileImageUrl := [], lastActivity := now\<rparr>)
            (sessions w)\<rparr>)"
  by (simp add: resetSession_def updateSession_Some assign_reset)

section \<open>The dispatcher\<close>

lemma handleIncomingMessageTry_hi:
  "isHiTrigger m \<Longrightarrow>
   handleIncomingMessageTry w m now =
     (w\<lparr>sessions := AList.update (from_msg m) (new_session now) (sessions w),
        outbox := outbox w @ [(from_msg m, Greeting)]\<rparr>, None)"
  by (simp add: handleIncomingMessageTry_def createSession_eq sendTextMessage_def Let_def)

lemma handleIncomingMessageTry_route:
  assumes "\<not> isHiTrigger m" and "getSession w (from_msg m) now = (g, w1)"
  shows "handleIncomingMessageTry w m now =
     (if step g = 1 then handleNameCollection w1 m (from_msg m) g now
      else if step g = 2 then handleFeedbackCollection w1 m (from_msg m) g now
      else if step g = 3 then handleImageCollection w1 m (from_msg m) g now
      else (w1\<lparr>sessions := AList.update (from_msg m)
                  (g\<lparr>step := 1, name := [], feedback := [], profileImageUrl := [],
                     lastActivity := now\<rparr>) (sessions w1),
               outbox := outbox w1 @ [(from_msg m, Greeting)]\<rparr>, None))"
proof -
  have st: "map_of (sessions w1) (from_msg m) = Some g"
    using getSession_stored [of w "from_msg m" now] assms(2) by simp
  show ?thesis
    using assms
    by (simp add: handleIncomingMessageTry_def resetSession_Some [OF st] sendTextMessage_def Let_def)
qed

lemma handleIncomingMessageTry_no_error: "snd (handleIncomingMessageTry w m now) = None"
proof (cases "isHiTrigger m")
  case True
  then show ?thesis by (simp add: handleIncomingMessageTry_hi)
next
  case False
  obtain g w1 where gw: "getSession w (from_msg m) now = (g, w1)"
    by (cases "getSession w (from_msg m) now")
  have st: "map_of (sessions w1) (from_msg m) = Some g"
    using getSession_stored [of w "from_msg m" now] gw by simp
  show ?thesis
    by (simp add: handleIncomingMessageTry_route [OF False gw]
        handleNameCollection_no_error [OF st] handleFeedbackCollection_no_error [OF st]
        handleImageCollection_no_error [OF st])
qed

lemma handleIncomingMessage_Try:
  "handleIncomingMessage w m now = handleIncomingMessageTry w m now"
proof -
  obtain w1 e where r: "handleIncomingMessageTry w m now = (w1, e)"
    by (cases "handleIncomingMessageTry w m now")
  have "e = None" using handleIncomingMessageTry_no_error [of w m now] r by simp
  then show ?thesis using r by (simp add: handleIncomingMessage_def)
qed

lemma isHiTrigger_iff:
  "type_msg m = ''text'' \<Longrightarrow> text_msg m = Some txt \<Longrightarrow>
   isHiTrigger m = (trim (toLowerCase (body txt)) = ''hi'')"
  by (simp add: isHiTrigger_def)

lemma isHiTrigger_text: "isHiTrigger m \<Longrightarrow> type_msg m = ''text''"
  by (simp add: isHiTrigger_def split: option.splits)

text \<open>
  Claim C3. Whatever the state, a text message whose body, lower-cased and trimmed, is
  \<open>hi\<close> makes the dispatcher store a new session for the sender, with step 1 and empty
  fields, in place of any session the sender had, and send the greeting; no step handler
  runs, the other sessions and the console are as before, and nothing is thrown.
\<close>

theorem hi_trigger_restarts:
  "type_msg m = ''text'' \<Longrightarrow> text_msg m = Some txt \<Longrightarrow> trim (toLowerCase (body txt)) = ''hi'' \<Longrightarrow>
   handleIncomingMessage w m now =
     (w\<lparr>sessions := AList.update (from_msg m) (new_session now) (sessions w),
        outbox := outbox w @ [(from_msg m, Greeting)]\<rparr>, None) \<and>
   map_of (sessions (fst (handleIncomingMessage w m now))) (from_msg m) =
     Some \<lparr>step = 1, name = [], feedback = [], profileImageUrl = [],
           createdAt = now, lastActivity = now\<rparr>"
proof -
  assume a: "type_msg m = ''text''" "text_msg m = Some txt" "trim (toLowerCase (body txt)) = ''hi''"
  have hi: "isHiTrigger m" using a by (simp add: isHiTrigger_iff)
  show ?thesis
    by (simp add: handleIncomingMessage_Try handleIncomingMessageTry_hi [OF hi]
        map_of_update_same new_session_def)
qed

theorem hi_trigger_restarts_witness:
  "type_msg hi_message = ''text'' \<and> text_msg hi_message = Some \<lparr>body = '' Hi ''\<rparr> \<and>
   trim (toLowerCase (body \<lparr>body = '' Hi ''\<rparr>)) = ''hi'' \<and>
   handleIncomingMessage ceiling_world hi_message 2000 =
     (\<lparr>sessions = [(''444'', new_session 2000)], console = [],
       outbox = [(''444'', Greeting)]\<rparr>, None)"
proof -
  have h1: "type_msg hi_message = ''text''" by (simp add: hi_message_def)
  have h2: "text_msg hi_message = Some \<lparr>body = '' Hi ''\<rparr>" by (simp add: hi_message_def)
  have h3: "trim (toLowerCase (body \<lparr>body = '' Hi ''\<rparr>)) = ''hi''"
    by code_simp
  show ?thesis
    using h1 h2 h3 hi_trigger_restarts [OF h1 h2 h3, of ceiling_world 2000]
    by (simp add: ceiling_world_def hi_message_def)
qed

lemma handleIncomingMessage_live:
  assumes "\<not> isHiTrigger m" and "map_of (sessions w) (from_msg m) = Some s"
    and "\<not> isSessionExpired s now"
  shows "handleIncomingMessage w m now =
     (let g = s\<lparr>lastActivity := now\<rparr>;
          w1 = w\<lparr>sessions := AList.update (from_msg m) g (sessions w)\<rparr>
      in if step s = 1 then handleNameCollection w1 m (from_msg m) g now
         else if step s = 2 then handleFeedbackCollection w1 m (from_msg m) g now
         else if step s = 3 then handleImageCollection w1 m (from_msg m) g now
         else (w\<lparr>sessions := AList.update (from_msg m)
                    (s\<lparr>step := 1, name := [], feedback := [], profileImageUrl := [],
                       lastActivity := now\<rparr>) (sessions w),
                  outbox := outbox w @ [(from_msg m, Greeting)]\<rparr>, None))"
  by (simp add: handleIncomingMessage_Try
      handleIncomingMessageTry_route [OF assms(1) getSession_live [OF assms(2,3)]] Let_def)

text \<open>
  Claim C9, as the code has it. The current session of a message is the one
  \<open>getSession\<close> returns for its sender: the stored session with \<open>lastActivity\<close> set to
  \<open>now\<close>, or a new session at step 1 when none is stored or the stored one has expired.
  When the type of the message does not match the step of the current session (not
  \<open>text\<close> at steps 1 and 2; at step 3 not \<open>image\<close> and not the "hi" trigger, which is a
  text message and restarts the conversation), the dispatcher changes the state by that
  \<open>getSession\<close> and nothing more, and the one message it sends is the prompt of the
  step, \<open>needText\<close> at steps 1 and 2 and \<open>needImage\<close> at step 3. So a stored session that
  has not expired keeps its step, name, feedback, image and \<open>createdAt\<close>, with only
  \<open>lastActivity\<close> set to \<open>now\<close>, and the other sessions and the console are as before.
\<close>

theorem type_mismatch_reprompts:
  "(let (g, w1) = getSession w (from_msg m) now
    in map_of (sessions w1) (from_msg m) = Some g \<and>
       ((step g = 1 \<or> step g = 2) \<and> type_msg m \<noteq> ''text'' \<longrightarrow>
          handleIncomingMessage w m now =
            (w1\<lparr>outbox := outbox w1 @ [(from_msg m, NeedText)]\<rparr>, None)) \<and>
       (step g = 3 \<and> type_msg m \<noteq> ''image'' \<and> \<not> isHiTrigger m \<longrightarrow>
          handleIncomingMessage w m now =
            (w1\<lparr>outbox := outbox w1 @ [(from_msg m, NeedImage)]\<rparr>, None))) \<and>
   (map_of (sessions w) (from_msg m) = Some s \<and> \<not> isSessionExpired s now \<and>
    (step s = 1 \<or> step s = 2) \<and> type_msg m \<noteq> ''text'' \<longrightarrow>
      handleIncomingMessage w m now =
        (w\<lparr>sessions := AList.update (from_msg m) (s\<lparr>lastActivity := now\<rparr>) (sessions w),
           outbox := outbox w @ [(from_msg m, NeedText)]\<rparr>, None)) \<and>
   (map_of (sessions w) (from_msg m) = Some s \<and> \<not> isSessionExpired s now \<and>
    step s = 3 \<and> type_msg m \<noteq> ''image'' \<and> \<not> isHiTrigger m \<longrightarrow>
      handleIncomingMessage w m now =
        (w\<lparr>sessions := AList.update (from_msg m) (s\<lparr>lastActivity := now\<rparr>) (sessions w),
           outbox := outbox w @ [(from_msg m, NeedImage)]\<rparr>, None))"
proof -
  obtain g w1 where gw: "getSession w (from_msg m) now = (g, w1)"
    by (cases "getSession w (from_msg m) now")
  have st: "map_of (sessions w1) (from_msg m) = Some g"
    using getSession_stored [of w "from_msg m" now] gw by simp
  have a: "handleIncomingMessage w m now =
            (w1\<lparr>outbox := outbox w1 @ [(from_msg m, NeedText)]\<rparr>, None)"
    if h: "step g = 1 \<or> step g = 2" "type_msg m \<noteq> ''text''"
  proof -
    have nohi: "\<not> isHiTrigger m" using h(2) isHiTrigger_text by blast
    show ?thesis
      using h
      by (auto simp add: handleIncomingMessage_Try handleIncomingMessageTry_route [OF nohi gw]
          handleNameCollection_mismatch handleFeedbackCollection_mismatch)
  qed
  have b: "handleIncomingMessage w m now =
            (w1\<lparr>outbox := outbox w1 @ [(from_msg m, NeedImage)]\<rparr>, None)"
    if h: "step g = 3" "type_msg m \<noteq> ''image''" "\<not> isHiTrigger m"
    using h(1,2)
    by (simp add: handleIncomingMessage_Try handleIncomingMessageTry_route [OF h(3) gw]
        handleImageCollection_mismatch)
  have one: "(let (g, w1) = getSession w (from_msg m) now
    in map_of (sessions w1) (from_msg m) = Some g \<and>
       ((step g = 1 \<or> step g = 2) \<and> type_msg m \<noteq> ''text'' \<longrightarrow>
          handleIncomingMessage w m now =
            (w1\<lparr>outbox := outbox w1 @ [(from_msg m, NeedText)]\<rparr>, None)) \<and>
       (step g = 3 \<and> type_msg m \<noteq> ''image'' \<and> \<not> isHiTrigger m \<longrightarrow>
          handleIncomingMessage w m now =
            (w1\<lparr>outbox := outbox w1 @ [(from_msg m, NeedImage)]\<rparr>, None)))"
    using st a b by (simp add: gw)
  have c: "handleIncomingMessage w m now =
        (w\<lparr>sessions := AList.update (from_msg m) (s\<lparr>lastActivity := now\<rparr>) (sessions w),
           outbox := outbox w @ [(from_msg m, NeedText)]\<rparr>, None)"
    if h: "map_of (sessions w) (from_msg m) = Some s" "\<not> isSessionExpired s now"
      "step s = 1 \<or> step s = 2" "type_msg m \<noteq> ''text''"
  proof -
    have nohi: "\<not> isHiTrigger m" using h(4) isHiTrigger_text by blast
    show ?thesis
      using h(3,4)
      by (auto simp add: handleIncomingMessage_live [OF nohi h(1,2)] Let_def
          handleNameCollection_mismatch handleFeedbackCollection_mismatch)
  qed
  have d: "handleIncomingMessage w m now =
        (w\<lparr>sessions := AList.update (from_msg m) (s\<lparr>lastActivity := now\<rparr>) (sessions w),
           outbox := outbox w @ [(from_msg m, NeedImage)]\<rparr>, None)"
    if h: "map_of (sessions w) (from_msg m) = Some s" "\<not> isSessionExpired s now"
      "step s = 3" "type_msg m \<noteq> ''image''" "\<not> isHiTrigger m"
    using h(3,4)
    by (simp add: handleIncomingMessage_live [OF h(5) h(1,2)] Let_def
        handleImageCollection_mismatch)
  show ?thesis using one c d by blast
qed

theorem type_mismatch_reprompts_witness:
  "type_msg image_message \<noteq> ''text'' \<and> type_msg text_message \<noteq> ''image'' \<and>
   map_of (sessions demo_world) (from_msg image_message) = Some demo_session \<and>
   \<not> isSessionExpired demo_session 2000 \<and> step demo_session = 2 \<and>
   map_of (sessions image_world) (from_msg text_message) = Some image_session \<and>
   \<not> isSessionExpired image_session 2000 \<and> step image_session = 3 \<and>
   \<not> isHiTrigger text_message \<and>
   handleIncomingMessage demo_world image_message 2000 =
     (\<lparr>sessions = [(''111'', demo_session\<lparr>lastActivity := 2000\<rparr>)], console = [],
       outbox = [(''111'', NeedText)]\<rparr>, None) \<and>
   handleIncomingMessage image_world text_message 2000 =
     (\<lparr>sessions = [(''555'', image_session\<lparr>lastActivity := 2000\<rparr>)], console = [],
       outbox = [(''555'', NeedImage)]\<rparr>, None) \<and>
   step (fst (getSession image_world (from_msg image_message) 2000)) = 1 \<and>
   handleIncomingMessage image_world image_message 2000 =
     (\<lparr>sessions = [(''555'', image_session), (''111'', new_session 2000)], console = [],
       outbox = [(''111'', NeedText)]\<rparr>, None)"
proof -
  have h1: "type_msg image_message \<noteq> ''text''" by (simp add: image_message_def)
  have h2: "type_msg text_message \<noteq> ''image''" by (simp add: text_message_def)
  have h3: "map_of (sessions demo_world) (from_msg image_message) = Some demo_session"
    by (simp add: demo_world_def image_message_def)
  have h4: "\<not> isSessionExpired demo_session 2000"
    by (simp add: isSessionExpired_def demo_session_def sessionTimeout_def)
  have h5: "step demo_session = 2" by (simp add: demo_session_def)
  have h6: "map_of (sessions image_world) (from_msg text_message) = Some image_session"
    by (simp add: image_world_def text_message_def)
  have h7: "\<not> isSessionExpired image_session 2000"
    by (simp add: isSessionExpired_def image_session_def sessionTimeout_def)
  have h8: "step image_session = 3" by (simp add: image_session_def)
  have h9: "\<not> isHiTrigger text_message" by code_simp
  have g: "getSession image_world (from_msg image_message) 2000 =
     (new_session 2000,
      \<lparr>sessions = [(''555'', image_session), (''111'', new_session 2000)], console = [],
       outbox = []\<rparr>)"
    by (simp add: getSession_def createSession_eq image_world_def image_message_def)
  have n: "step (new_session 2000) = 1" by (simp add: new_session_def)
  show ?thesis
    using h1 h2 h3 h4 h5 h6 h7 h8 h9 n
      type_mismatch_reprompts [of demo_world image_message 2000 demo_session]
      type_mismatch_reprompts [of image_world text_message 2000 image_session]
      type_mismatch_reprompts [of image_world image_message 2000 image_session]
    by (simp add: g) (simp add: demo_world_def image_world_def image_message_def text_message_def)
qed

text \<open>
  Three messages of the wrong type for the stored step. The "hi" trigger sent at step 3
  is not an image, and the dispatcher answers it with a new session and the greeting. An
  image sent at step 2 leaves the session with a new \<open>lastActivity\<close>. A text sent to a
  session at step 3 that has expired is taken as the name of a new session.
\<close>

theorem type_mismatch_reprompts_counterexample:
  "map_of (sessions image_world) (from_msg hi_at_step3) = Some image_session \<and>
   step image_session = 3 \<and> \<not> isSessionExpired image_session 2000 \<and>
   type_msg hi_at_step3 \<noteq> ''image'' \<and>
   handleIncomingMessage image_world hi_at_step3 2000 =
     (\<lparr>sessions = [(''555'', new_session 2000)], console = [],
       outbox = [(''555'', Greeting)]\<rparr>, None) \<and>
   new_session 2000 \<noteq> image_session \<and>
   map_of (sessions demo_world) (from_msg image_message) = Some demo_session \<and>
   step demo_session = 2 \<and> type_msg image_message \<noteq> ''text'' \<and>
   sessions (fst (handleIncomingMessage demo_world image_message 2000)) =
     [(''111'', demo_session\<lparr>lastActivity := 2000\<rparr>)] \<and>
   demo_session\<lparr>lastActivity := 2000\<rparr> \<noteq> demo_session \<and>
   isSessionExpired image_session 50000000 \<and>
   handleIncomingMessage image_world text_message 50000000 =
     (\<lparr>sessions = [(''555'', \<lparr>step = 2, name = ''hello'', feedback = [], profileImageUrl = [],
                          createdAt = 50000000, lastActivity = 50000000\<rparr>)],
       console = [], outbox = [(''555'', NameReceived ''hello'')]\<rparr>, None)"
proof -
  have a: "handleIncomingMessage image_world hi_at_step3 2000 =
     (\<lparr>sessions = [(''555'', new_session 2000)], console = [],
       outbox = [(''555'', Greeting)]\<rparr>, None)"
    by code_simp
  have b: "sessions (fst (handleIncomingMessage demo_world image_message 2000)) =
     [(''111'', demo_session\<lparr>lastActivity := 2000\<rparr>)]"
    by code_simp
  have c: "handleIncomingMessage image_world text_message 50000000 =
     (\<lparr>sessions = [(''555'', \<lparr>step = 2, name = ''hello'', feedback = [], profileImageUrl = [],
                          createdAt = 50000000, lastActivity = 50000000\<rparr>)],
       console = [], outbox = [(''555'', NameReceived ''hello'')]\<rparr>, None)"
    by code_simp
  show ?thesis
    using a b c
    by (simp add: image_world_def image_session_def hi_at_step3_def demo_world_def
        demo_session_def image_message_def new_session_def isSessionExpired_def
        sessionTimeout_def)
qed

text \<open>
  Claim C10. For a key with a session, \<open>resetSession\<close> stores and returns that session
  with step 1, empty name, feedback and image and \<open>lastActivity = now\<close>; \<open>createdAt\<close> is
  the one it had. The dispatcher resets in this way a live session whose step is not 1, 2
  or 3. \<open>createSession\<close>, and so the "hi" trigger, stores a new session whose
  \<open>createdAt\<close> is \<open>now\<close>. A completion after the reset therefore logs the duration since
  the original creation, and one after the trigger the duration since the trigger.
\<close>

theorem resetSession_keeps_createdAt:
  "map_of (sessions w) u = Some s \<Longrightarrow>
   (let (r, w') = resetSession w u now
    in r = s\<lparr>step := 1, name := [], feedback := [], profileImageUrl := [], lastActivity := now\<rparr> \<and>
       step r = 1 \<and> name r = [] \<and> feedback r = [] \<and> profileImageUrl r = [] \<and>
       lastActivity r = now \<and> createdAt r = createdAt s \<and>
       map_of (sessions w') u = Some r \<and>
       console (snd (completeSession w' u later)) = console w @
         [FeedbackCollectionCompleted
            \<lparr>fd_timestamp = later, fd_userPhone = u, fd_name = [], fd_feedback = [],
             fd_profileImageUrl = [],
             fd_sessionDuration = round_div (later - createdAt s) (1000 * 60),
             fd_completedAt = later\<rparr>]) \<and>
   (let (r, w') = createSession w u now
    in createdAt r = now \<and> map_of (sessions w') u = Some r \<and>
       console (snd (completeSession w' u later)) = console w @
         [FeedbackCollectionCompleted
            \<lparr>fd_timestamp = later, fd_userPhone = u, fd_name = [], fd_feedback = [],
             fd_profileImageUrl = [],
             fd_sessionDuration = round_div (later - now) (1000 * 60),
             fd_completedAt = later\<rparr>]) \<and>
   (isHiTrigger m \<and> from_msg m = u \<longrightarrow>
      fst (handleIncomingMessage w m now) =
        (snd (createSession w u now))\<lparr>outbox := outbox w @ [(u, Greeting)]\<rparr>) \<and>
   (\<not> isHiTrigger m \<and> from_msg m = u \<and> \<not> isSessionExpired s now \<and>
    step s \<noteq> 1 \<and> step s \<noteq> 2 \<and> step s \<noteq> 3 \<longrightarrow>
      fst (handleIncomingMessage w m now) =
        (snd (resetSession w u now))\<lparr>outbox := outbox w @ [(u, Greeting)]\<rparr>)"
proof -
  assume st: "map_of (sessions w) u = Some s"
  let ?r = "s\<lparr>step := 1, name := [], feedback := [], profileImageUrl := [], lastActivity := now\<rparr>"
  let ?w = "w\<lparr>sessions := AList.update u ?r (sessions w)\<rparr>"
  have r: "resetSession w u now = (?r, ?w)" using st by (rule resetSession_Some)
  have rs: "map_of (sessions ?w) u = Some ?r" by (simp add: map_of_update_same)
  have one: "(let (r, w') = resetSession w u now
    in r = ?r \<and> step r = 1 \<and> name r = [] \<and> feedback r = [] \<and> profileImageUrl r = [] \<and>
       lastActivity r = now \<and> createdAt r = createdAt s \<and>
       map_of (sessions w') u = Some r \<and>
       console (snd (completeSession w' u later)) = console w @
         [FeedbackCollectionCompleted
            \<lparr>fd_timestamp = later, fd_userPhone = u, fd_name = [], fd_feedback = [],
             fd_profileImageUrl = [],
             fd_sessionDuration = round_div (later - createdAt s) (1000 * 60),
             fd_completedAt = later\<rparr>])"
    by (simp add: r completeSession_Some [OF rs] map_of_update_same)
  let ?v = "w\<lparr>sessions := AList.update u (new_session now) (sessions w)\<rparr>"
  have cs: "map_of (sessions ?v) u = Some (new_session now)" by (simp add: map_of_update_same)
  have two: "(let (r, w') = createSession w u now
    in createdAt r = now \<and> map_of (sessions w') u = Some r \<and>
       console (snd (completeSession w' u later)) = console w @
         [FeedbackCollectionCompleted
            \<lparr>fd_timestamp = later, fd_userPhone = u, fd_name = [], fd_feedback = [],
             fd_profileImageUrl = [],
             fd_sessionDuration = round_div (later - now) (1000 * 60),
             fd_completedAt = later\<rparr>])"
    by (simp add: createSession_eq completeSession_Some [OF cs] map_of_update_same)
      (simp add: new_session_def)
  have three: "isHiTrigger m \<and> from_msg m = u \<longrightarrow>
      fst (handleIncomingMessage w m now) =
        (snd (createSession w u now))\<lparr>outbox := outbox w @ [(u, Greeting)]\<rparr>"
    by (auto simp add: handleIncomingMessage_Try handleIncomingMessageTry_hi createSession_eq)
  have four: "\<not> isHiTrigger m \<and> from_msg m = u \<and> \<not> isSessionExpired s now \<and>
    step s \<noteq> 1 \<and> step s \<noteq> 2 \<and> step s \<noteq> 3 \<longrightarrow>
      fst (handleIncomingMessage w m now) =
        (snd (resetSession w u now))\<lparr>outbox := outbox w @ [(u, Greeting)]\<rparr>"
    using st by (auto simp add: handleIncomingMessage_live r Let_def)
  show ?thesis using one two three four by blast
qed

theorem resetSession_keeps_createdAt_witness:
  "map_of (sessions ceiling_world) ''444'' = Some ceiling_session \<and>
   \<not> isHiTrigger stray_message \<and> isHiTrigger hi_message \<and>
   \<not> isSessionExpired ceiling_session 120000 \<and>
   fst (resetSession ceiling_world ''444'' 120000) =
     \<lparr>step = 1, name = [], feedback = [], profileImageUrl = [], createdAt = 0,
      lastActivity = 120000\<rparr> \<and>
   fst (createSession ceiling_world ''444'' 120000) = new_session 120000 \<and>
   sessions (fst (handleIncomingMessage ceiling_world stray_message 120000)) =
     [(''444'', \<lparr>step = 1, name = [], feedback = [], profileImageUrl = [], createdAt = 0,
               lastActivity = 120000\<rparr>)] \<and>
   sessions (fst (handleIncomingMessage ceiling_world hi_message 120000)) =
     [(''444'', new_session 120000)]"
proof -
  have h1: "map_of (sessions ceiling_world) ''444'' = Some ceiling_session"
    by (simp add: ceiling_world_def)
  have h2: "\<not> isHiTrigger stray_message" by code_simp
  have h3: "isHiTrigger hi_message" by code_simp
  have h4: "\<not> isSessionExpired ceiling_session 120000"
    by (simp add: isSessionExpired_def ceiling_session_def sessionTimeout_def)
  have f1: "from_msg stray_message = ''444''" by (simp add: stray_message_def)
  have f2: "from_msg hi_message = ''444''" by (simp add: hi_message_def)
  have st: "step ceiling_session = 4" by (simp add: ceiling_session_def)
  have r: "resetSession ceiling_world ''444'' 120000 =
     (\<lparr>step = 1, name = [], feedback = [], profileImageUrl = [], createdAt = 0,
       lastActivity = 120000\<rparr>,
      ceiling_world\<lparr>sessions := [(''444'', \<lparr>step = 1, name = [], feedback = [],
         profileImageUrl = [], createdAt = 0, lastActivity = 120000\<rparr>)]\<rparr>)"
    by (simp add: resetSession_Some [OF h1]) (simp add: ceiling_world_def ceiling_session_def)
  have c: "createSession ceiling_world ''444'' 120000 =
     (new_session 120000, ceiling_world\<lparr>sessions := [(''444'', new_session 120000)]\<rparr>)"
    by (simp add: createSession_eq) (simp add: ceiling_world_def)
  show ?thesis
    using h1 h2 h3 h4 f1 f2 st
      resetSession_keeps_createdAt [OF h1, of 120000 180000 stray_message]
      resetSession_keeps_createdAt [OF h1, of 120000 180000 hi_message]
    by (simp add: r c)
qed

section \<open>The webhook payload\<close>

lemma processChange_other_field:
  "field_change c \<noteq> Some ''messages'' \<Longrightarrow> processChange w c now = (w, None)"
  by (simp add: processChange_def processMessages_def processStatuses_def)

lemma changesLoop_other_field:
  "list_all (\<lambda>c. field_change c \<noteq> Some ''messages'') cs \<Longrightarrow> changesLoop w cs now = (w, None)"
  by (induction cs) (simp_all add: processChange_other_field)

lemma entriesLoop_ignored:
  "list_all ignoredEntry es \<Longrightarrow> entriesLoop w es now = (w, None)"
proof (induction es)
  case Nil
  then show ?case by simp
next
  case (Cons e es)
  from Cons.prems obtain cs where cs: "changes e = Some cs"
    and other: "list_all (\<lambda>c. field_change c \<noteq> Some ''messages'') cs"
    by (auto simp add: ignoredEntry_def split: option.splits)
  from Cons show ?case by (simp add: cs changesLoop_other_field [OF other])
qed

text \<open>
  Claim C8, as the code has it. A payload whose \<open>object\<close> is not
  \<open>whatsapp_business_account\<close> is ignored: the state is unchanged and nothing is thrown,
  whatever else the payload holds or lacks. So is a payload with that \<open>object\<close> whose
  \<open>entry\<close> array is present, each entry of which has its \<open>changes\<close> array, and none of
  whose changes has the field \<open>messages\<close>.
\<close>

theorem processWebhookPayload_ignored:
  "(object_payload p \<noteq> Some ''whatsapp_business_account'' \<longrightarrow>
      processWebhookPayload w p now = (w, None)) \<and>
   (entry_payload p = Some es \<and> list_all ignoredEntry es \<longrightarrow>
      processWebhookPayload w p now = (w, None))"
  by (simp add: processWebhookPayload_def entriesLoop_ignored)

theorem processWebhookPayload_ignored_witness:
  "object_payload other_object \<noteq> Some ''whatsapp_business_account'' \<and>
   processWebhookPayload demo_world other_object 5000 = (demo_world, None) \<and>
   entry_payload other_field = Some other_field_entries \<and>
   list_all ignoredEntry other_field_entries \<and>
   processWebhookPayload demo_world other_field 5000 = (demo_world, None)"
proof -
  have h1: "object_payload other_object \<noteq> Some ''whatsapp_business_account''"
    by (simp add: other_object_def)
  have h2: "entry_payload other_field = Some other_field_entries"
    by (simp add: other_field_def)
  have h3: "list_all ignoredEntry other_field_entries"
    by (simp add: other_field_entries_def ignoredEntry_def)
  show ?thesis
    using h1 h2 h3
      processWebhookPayload_ignored [of other_object demo_world 5000 "[]"]
      processWebhookPayload_ignored [of other_field demo_world 5000 other_field_entries]
    by simp
qed

text \<open>An entry that has no \<open>changes\<close> array, in a payload with the recognised \<open>object\<close>:
  the loop over \<open>entry.changes\<close> throws a \<open>TypeError\<close>.\<close>

theorem processWebhookPayload_ignored_counterexample:
  "object_payload entry_without_changes = Some ''whatsapp_business_account'' \<and>
   processWebhookPayload initial_world entry_without_changes 0 = (initial_world, Some TypeError)"
  by (simp add: processWebhookPayload_def entry_without_changes_def)

section \<open>The fields of the sessions along a run\<close>

lemma list_all_update:
  "list_all P al \<Longrightarrow> P (k, v) \<Longrightarrow> list_all P (AList.update k v al)"
  by (induction al) auto

lemma list_all_delete: "list_all P al \<Longrightarrow> list_all P (AList.delete k al)"
  by (simp add: AList.delete_eq list_all_iff)

lemma everySession_update:
  "everySession P w \<Longrightarrow> P s \<Longrightarrow> everySession P (w\<lparr>sessions := AList.update u s (sessions w)\<rparr>)"
  by (simp add: everySession_def list_all_update)

lemma everySession_delete:
  "everySession P w \<Longrightarrow> everySession P (w\<lparr>sessions := AList.delete u (sessions w)\<rparr>)"
  by (simp add: everySession_def list_all_delete)

lemma everySession_lookup:
  "everySession P w \<Longrightarrow> map_of (sessions w) u = Some s \<Longrightarrow> P s"
proof -
  assume a: "everySession P w" and b: "map_of (sessions w) u = Some s"
  from b have "(u, s) \<in> set (sessions w)" by (rule map_of_SomeD)
  with a have "P (snd (u, s))" unfolding everySession_def list_all_iff by blast
  then show "P s" by simp
qed

lemma everySession_cong: "sessions w' = sessions w \<Longrightarrow> everySession P w' = everySession P w"
  by (simp add: everySession_def)

lemma sessionHasFields_new: "sessionHasFields (new_session now)"
  by (simp add: sessionHasFields_def new_session_def)

lemma getSession_everySession:
  assumes "everySession sessionHasFields w"
  shows "everySession sessionHasFields (snd (getSession w u now))"
proof (cases "map_of (sessions w) u")
  case None
  then show ?thesis
    using assms by (simp add: getSession_None createSession_eq everySession_update sessionHasFields_new)
next
  case (Some s)
  have good: "sessionHasFields s" using assms Some by (rule everySession_lookup)
  show ?thesis
  proof (cases "isSessionExpired s now")
    case True
    have "everySession sessionHasFields (w\<lparr>sessions := AList.delete u (sessions w)\<rparr>)"
      using assms by (rule everySession_delete)
    from everySession_update [OF this sessionHasFields_new, of u now]
    show ?thesis using Some True by (simp add: getSession_expired createSession_eq)
  next
    case False
    have "sessionHasFields (s\<lparr>lastActivity := now\<rparr>)"
      using good by (simp add: sessionHasFields_def)
    from everySession_update [OF assms this, of u]
    show ?thesis using Some False by (simp add: getSession_live)
  qed
qed

lemma handleIncomingMessage_everySession:
  assumes inv: "everySession sessionHasFields w" and nb: "nonBlankText m"
  shows "everySession sessionHasFields (fst (handleIncomingMessage w m now))"
proof (cases "isHiTrigger m")
  case True
  from everySession_update [OF inv sessionHasFields_new, of "from_msg m" now]
  show ?thesis
    by (simp add: handleIncomingMessage_Try handleIncomingMessageTry_hi [OF True]
        everySession_def)
next
  case False
  let ?u = "from_msg m"
  obtain g w1 where gw: "getSession w ?u now = (g, w1)" by (cases "getSession w ?u now")
  have inv1: "everySession sessionHasFields w1"
    using getSession_everySession [OF inv, of ?u now] gw by simp
  have st: "map_of (sessions w1) ?u = Some g"
    using getSession_stored [of w ?u now] gw by simp
  have good: "sessionHasFields g" using inv1 st by (rule everySession_lookup)
  have out: "everySession sessionHasFields (w1\<lparr>outbox := ob\<rparr>)" for ob
    using inv1 by (simp add: everySession_def)
  have upd: "everySession sessionHasFields
               (w1\<lparr>sessions := AList.update ?u s (sessions w1), outbox := ob\<rparr>)"
    if "sessionHasFields s" for s ob
    using everySession_update [OF inv1 that, of ?u] by (simp add: everySession_def)
  have del: "everySession sessionHasFields
               (w1\<lparr>sessions := AList.delete ?u (sessions w1), console := co, outbox := ob\<rparr>)"
    for co ob
    using everySession_delete [OF inv1, of ?u] by (simp add: everySession_def)
  have route: "handleIncomingMessage w m now =
     (if step g = 1 then handleNameCollection w1 m ?u g now
      else if step g = 2 then handleFeedbackCollection w1 m ?u g now
      else if step g = 3 then handleImageCollection w1 m ?u g now
      else (w1\<lparr>sessions := AList.update ?u
                  (g\<lparr>step := 1, name := [], feedback := [], profileImageUrl := [],
                     lastActivity := now\<rparr>) (sessions w1),
               outbox := outbox w1 @ [(?u, Greeting)]\<rparr>, None))"
    by (simp add: handleIncomingMessage_Try handleIncomingMessageTry_route [OF False gw])
  consider (one) "step g = 1" | (two) "step g = 2" | (three) "step g = 3"
    | (other) "step g \<noteq> 1" "step g \<noteq> 2" "step g \<noteq> 3" by blast
  then show ?thesis
  proof cases
    case one
    show ?thesis
    proof (cases "type_msg m \<noteq> ''text'' \<or> text_msg m = None")
      case True
      then show ?thesis
        using one by (simp add: route handleNameCollection_mismatch out)
    next
      case False
      then obtain tx where t: "type_msg m = ''text''" "text_msg m = Some tx" by auto
      have "trim (body tx) \<noteq> []" using nb t by (simp add: nonBlankText_def)
      then have "sessionHasFields
          (g\<lparr>name := trim (body tx), step := min (step g + 1) 4, lastActivity := now\<rparr>)"
        using one by (simp add: sessionHasFields_def)
      from upd [OF this] show ?thesis
        using one by (simp add: route handleNameCollection_text [OF st t])
    qed
  next
    case two
    show ?thesis
    proof (cases "type_msg m \<noteq> ''text'' \<or> text_msg m = None")
      case True
      then show ?thesis
        using two by (simp add: route handleFeedbackCollection_mismatch out)
    next
      case False
      then obtain tx where t: "type_msg m = ''text''" "text_msg m = Some tx" by auto
      have "trim (body tx) \<noteq> []" using nb t by (simp add: nonBlankText_def)
      then have "sessionHasFields
          (g\<lparr>feedback := trim (body tx), step := min (step g + 1) 4, lastActivity := now\<rparr>)"
        using two good by (simp add: sessionHasFields_def)
      from upd [OF this] show ?thesis
        using two by (simp add: route handleFeedbackCollection_text [OF st t])
    qed
  next
    case three
    show ?thesis
    proof (cases "type_msg m \<noteq> ''image'' \<or> image_msg m = None")
      case True
      then show ?thesis
        using three by (simp add: route handleImageCollection_mismatch out)
    next
      case False
      then obtain img where t: "type_msg m = ''image''" "image_msg m = Some img" by auto
      show ?thesis
        using three by (simp add: route handleImageCollection_image [OF st t] del)
    qed
  next
    case other
    have "sessionHasFields
        (g\<lparr>step := 1, name := [], feedback := [], profileImageUrl := [], lastActivity := now\<rparr>)"
      by (simp add: sessionHasFields_def)
    from upd [OF this] show ?thesis
      using other by (simp add: route)
  qed
qed

lemma handleAll_everySession:
  "everySession sessionHasFields w \<Longrightarrow> list_all (\<lambda>e. nonBlankText (fst e)) msgs \<Longrightarrow>
   everySession sessionHasFields (handleAll w msgs)"
proof (induction msgs arbitrary: w)
  case Nil
  then show ?case by simp
next
  case (Cons e msgs)
  obtain m now where e: "e = (m, now)" by (cases e)
  have "everySession sessionHasFields (fst (handleIncomingMessage w m now))"
    using Cons.prems e by (simp add: handleIncomingMessage_everySession)
  from Cons.IH [OF this] show ?case using Cons.prems(2) e by simp
qed

text \<open>
  Claim C1, as the code has it. In every state the dispatcher reaches from the empty
  store by handling inbound messages none of which is a text message with a blank body
  (empty once trimmed), each session with a step above 1 has a name that is not empty,
  and each session with a step above 2 has feedback that is not empty. The same holds
  from any state in which the sessions have this property.
\<close>

theorem sessions_have_fields:
  "list_all (\<lambda>e. nonBlankText (fst e)) msgs \<Longrightarrow>
   everySession sessionHasFields (handleAll initial_world msgs) \<and>
   (everySession sessionHasFields w \<longrightarrow> everySession sessionHasFields (handleAll w msgs))"
proof -
  assume nb: "list_all (\<lambda>e. nonBlankText (fst e)) msgs"
  have "everySession sessionHasFields initial_world"
    by (simp add: everySession_def initial_world_def)
  then show ?thesis using nb by (simp add: handleAll_everySession)
qed

theorem sessions_have_fields_witness:
  "list_all (\<lambda>e. nonBlankText (fst e)) scenario \<and>
   everySession sessionHasFields initial_world \<and>
   sessions (handleAll initial_world scenario) =
     [(''444'', \<lparr>step = 3, name = ''Alice'', feedback = ''Great service'', profileImageUrl = [],
               createdAt = 1000, lastActivity = 3000\<rparr>)] \<and>
   everySession sessionHasFields (handleAll initial_world scenario)"
proof -
  have h: "list_all (\<lambda>e. nonBlankText (fst e)) scenario" by code_simp
  have i: "everySession sessionHasFields initial_world" by code_simp
  have r: "sessions (handleAll initial_world scenario) =
     [(''444'', \<lparr>step = 3, name = ''Alice'', feedback = ''Great service'', profileImageUrl = [],
               createdAt = 1000, lastActivity = 3000\<rparr>)]"
    by code_simp
  show ?thesis
    using h i r sessions_have_fields [OF h, of initial_world] by simp
qed

text \<open>A text message whose body is two spaces, sent by a new user: the name stored is
  empty and the session moves to step 2.\<close>

theorem sessions_have_fields_counterexample:
  "sessions (handleAll initial_world [(blank_message, 0)]) =
     [(''111'', \<lparr>step = 2, name = [], feedback = [], profileImageUrl = [],
               createdAt = 0, lastActivity = 0\<rparr>)] \<and>
   \<not> everySession sessionHasFields (handleAll initial_world [(blank_message, 0)])"
proof -
  have r: "sessions (handleAll initial_world [(blank_message, 0)]) =
     [(''111'', \<lparr>step = 2, name = [], feedback = [], profileImageUrl = [],
               createdAt = 0, lastActivity = 0\<rparr>)]"
    by code_simp
  show ?thesis using r by (simp add: everySession_def sessionHasFields_def)
qed

end
